theory Spec2Isabelle
  imports Main "HOL-Library.Word"
begin

section \<open>The SendDistance sketch: a VL6180X range sampler\<close>

text \<open>
  The sketch \<^verbatim>\<open>picking/SendDistance/SendDistance.ino\<close> has one global, the sensor handle
  \<^verbatim>\<open>VL6180X sensor\<close>, and two functions: \<^verbatim>\<open>setup\<close>, run once, and \<^verbatim>\<open>loop\<close>, run
  forever. Both only call into the Arduino core (\<^verbatim>\<open>Serial\<close>, \<^verbatim>\<open>Wire\<close>) and the sensor
  driver. The embedding passes the state of the board explicitly: what the serial port
  has been given, the fields of the sensor handle, and the ordered record of the calls
  made, as a test double of the peripherals would keep it. What the sensor answers to a
  range request is not decided by the program; it is an argument of \<open>loop\<close>, one
  measurement outcome for each iteration.
\<close>

subsection \<open>Data model\<close>

type_synonym uint16 = "16 word"

text \<open>
  The width of the C++ type \<^verbatim>\<open>int\<close> is fixed by the target the sketch is compiled for:
  16 bits on the AVR boards, 32 bits on the ARM and ESP boards.
\<close>

datatype int_width = Int16 | Int32

text \<open>
  One measurement outcome: the value the range request returns and whether the request
  ran into the driver's timeout.
\<close>

record outcome =
  raw :: uint16
  timed_out :: bool

text \<open>The calls that reach the peripherals, in the order they are made.\<close>

datatype event =
    SerialBegin nat
  | WireBegin
  | SensorInit
  | SensorConfigureDefault
  | SensorSetTimeout uint16
  | RangeRequest
  | RangeReturn uint16 bool
  | TimeoutQuery bool
  | SerialPrintln int

text \<open>
  Modelled from the spec: the class \<^verbatim>\<open>VL6180X\<close> comes from the sensor driver, which is
  not part of the repository. The handle is "a configured connection to one
  distance-sensing device" with a "configured timeout duration"; it is initialised and
  given its default configuration once; a reading is "paired implicitly with a
  success/timeout outcome", which the handle keeps in \<open>did_timeout\<close> until the program
  inspects it.
\<close>

record VL6180X =
  initialised :: bool
  configured :: bool
  io_timeout :: uint16
  did_timeout :: bool

record board =
  serial_baud :: "nat option"
  serial_out :: string
  wire_started :: bool
  sensor :: VL6180X
  calls :: "event list"

text \<open>The board at power-on: nothing opened, nothing sent, the handle as constructed.\<close>

definition boot :: board where
  "boot =
     \<lparr>serial_baud = None, serial_out = [], wire_started = False,
      sensor = \<lparr>initialised = False, configured = False, io_timeout = 0, did_timeout = False\<rparr>,
      calls = []\<rparr>"

subsection \<open>The Arduino core and the sensor driver\<close>

text \<open>
  Modelled from the spec: \<^verbatim>\<open>Serial.begin\<close> belongs to the Arduino core. It "opens a
  communication channel at a fixed high baud rate".
\<close>

definition Serial_begin :: "nat \<Rightarrow> board \<Rightarrow> board" where
  "Serial_begin baud b = b\<lparr>serial_baud := Some baud, calls := calls b @ [SerialBegin baud]\<rparr>"

text \<open>
  Modelled from the spec: \<^verbatim>\<open>Wire.begin\<close> belongs to the Arduino core. It "initializes
  the shared two-wire bus used to talk to the sensor".
\<close>

definition Wire_begin :: "board \<Rightarrow> board" where
  "Wire_begin b = b\<lparr>wire_started := True, calls := calls b @ [WireBegin]\<rparr>"

text \<open>
  Modelled from the spec: the driver's \<^verbatim>\<open>init\<close>, \<^verbatim>\<open>configureDefault\<close> and
  \<^verbatim>\<open>setTimeout\<close>: "initialize the sensor device handle; apply default factory
  configuration", "set a per-measurement timeout".
\<close>

definition init :: "board \<Rightarrow> board" where
  "init b = b\<lparr>sensor := (sensor b)\<lparr>initialised := True\<rparr>, calls := calls b @ [SensorInit]\<rparr>"

definition configureDefault :: "board \<Rightarrow> board" where
  "configureDefault b =
     b\<lparr>sensor := (sensor b)\<lparr>configured := True\<rparr>, calls := calls b @ [SensorConfigureDefault]\<rparr>"

definition setTimeout :: "uint16 \<Rightarrow> board \<Rightarrow> board" where
  "setTimeout t b =
     b\<lparr>sensor := (sensor b)\<lparr>io_timeout := t\<rparr>, calls := calls b @ [SensorSetTimeout t]\<rparr>"

text \<open>
  Modelled from the spec: the driver's \<^verbatim>\<open>readRangeSingleMillimeters\<close>. "Request a
  single-shot range measurement; this call blocks the calling thread until the sensor
  responds or the configured timeout elapses." The request and its return are two
  entries of the call record, in this order; the outcome \<open>m\<close> is what the sensor does
  with this request. A request that times out marks the handle.
\<close>

definition readRangeSingleMillimeters :: "outcome \<Rightarrow> board \<Rightarrow> uint16 \<times> board" where
  "readRangeSingleMillimeters m b =
     (raw m,
      b\<lparr>sensor := (if timed_out m then (sensor b)\<lparr>did_timeout := True\<rparr> else sensor b),
        calls := calls b @ [RangeRequest, RangeReturn (raw m) (timed_out m)]\<rparr>)"

text \<open>
  Modelled from the spec: the driver's \<^verbatim>\<open>timeoutOccurred\<close>. "Inspect whether the prior
  call timed out." The outcome is consumed by the inspection ("produced and consumed
  within one loop iteration; not retained"): the mark is returned and cleared.
\<close>

definition timeoutOccurred :: "board \<Rightarrow> bool \<times> board" where
  "timeoutOccurred b =
     (did_timeout (sensor b),
      b\<lparr>sensor := (sensor b)\<lparr>did_timeout := False\<rparr>,
        calls := calls b @ [TimeoutQuery (did_timeout (sensor b))]\<rparr>)"

text \<open>
  Modelled from the spec: \<^verbatim>\<open>Serial.println\<close> of an \<^verbatim>\<open>int\<close> belongs to the Arduino core:
  "one decimal integer (millimeters) per line, terminated by a line break". The digits
  are produced from the least significant one, a minus sign goes before a negative
  number, and the line break of the core is carriage return, line feed.
\<close>

fun printNumber :: "nat \<Rightarrow> string" where
  "printNumber n =
     (let c = n mod 10; n' = n div 10
      in (if n' \<noteq> 0 then printNumber n' else []) @ [char_of (48 + c)])"

declare printNumber.simps [simp del]

definition print_int :: "int \<Rightarrow> string" where
  "print_int n = (if n < 0 then CHR ''-'' # printNumber (nat (- n)) else printNumber (nat n))"

definition line_break :: string where
  "line_break = [CHR 0x0D, CHR 0x0A]"

definition Serial_println :: "int \<Rightarrow> board \<Rightarrow> board" where
  "Serial_println n b =
     b\<lparr>serial_out := serial_out b @ print_int n @ line_break,
       calls := calls b @ [SerialPrintln n]\<rparr>"

subsection \<open>The sketch\<close>

text \<open>
  \<^verbatim>\<open>int distance = sensor.readRangeSingleMillimeters();\<close> converts the driver's unsigned
  16-bit result to \<^verbatim>\<open>int\<close>. A 32-bit \<^verbatim>\<open>int\<close> holds every such value; a 16-bit \<^verbatim>\<open>int\<close>
  keeps the bit pattern and reads it as two's complement.
\<close>

definition int_of_uint16 :: "int_width \<Rightarrow> uint16 \<Rightarrow> int" where
  "int_of_uint16 w v = (case w of Int16 \<Rightarrow> sint v | Int32 \<Rightarrow> sint (ucast v :: 32 word))"

text \<open>
  \<^verbatim>\<open>
  void setup()
  {
    Serial.begin(2000000);
    Wire.begin();
    sensor.init();
    sensor.configureDefault();
    sensor.setTimeout(500);
  }
  \<close>
\<close>

definition setup_sketch :: "board \<Rightarrow> board" where
  "setup_sketch b =
     (let b1 = Serial_begin 2000000 b;
          b2 = Wire_begin b1;
          b3 = init b2;
          b4 = configureDefault b3
      in setTimeout 500 b4)"

text \<open>
  \<^verbatim>\<open>
  void loop()
  {
    int distance = sensor.readRangeSingleMillimeters();
    if (sensor.timeoutOccurred() == 0) {
      Serial.println(distance);
      }
  }
  \<close>
  The comparison \<^verbatim>\<open>== 0\<close> promotes the \<^verbatim>\<open>bool\<close> to an integer.
\<close>

definition loop :: "int_width \<Rightarrow> outcome \<Rightarrow> board \<Rightarrow> board" where
  "loop w m b =
     (let (reading, b1) = readRangeSingleMillimeters m b;
          distance = int_of_uint16 w reading;
          (flag, b2) = timeoutOccurred b1
      in if of_bool flag = (0 :: int) then Serial_println distance b2 else b2)"

text \<open>
  The Arduino core calls \<^verbatim>\<open>setup\<close> once and then \<^verbatim>\<open>loop\<close> without end. \<open>run w ms\<close> is
  the board after power-on, \<open>setup\<close> and the first \<open>length ms\<close> iterations, the sensor
  answering the requests with \<open>ms\<close> in turn.
\<close>

definition iterate :: "int_width \<Rightarrow> board \<Rightarrow> outcome list \<Rightarrow> board" where
  "iterate w b ms = foldl (\<lambda>b m. loop w m b) b ms"

definition run :: "int_width \<Rightarrow> outcome list \<Rightarrow> board" where
  "run w ms = iterate w (setup_sketch boot) ms"

text \<open>What the \<open>i\<close>-th iteration of an execution adds to the serial output.\<close>

definition emitted :: "int_width \<Rightarrow> outcome list \<Rightarrow> nat \<Rightarrow> string" where
  "emitted w ms i =
     drop (length (serial_out (run w (take i ms)))) (serial_out (run w (take (Suc i) ms)))"

text \<open>The line a successful measurement is reported with.\<close>

definition report :: "int_width \<Rightarrow> outcome \<Rightarrow> string" where
  "report w m = print_int (int_of_uint16 w (raw m)) @ line_break"

subsection \<open>Observing an execution\<close>

text \<open>
  The calls one iteration makes when the sensor answers its request with \<open>m\<close>: the
  request, its return, the inspection of the timeout mark and, for a measurement that
  did not time out, the report.
\<close>

definition loop_calls :: "int_width \<Rightarrow> outcome \<Rightarrow> event list" where
  "loop_calls w m =
     [RangeRequest, RangeReturn (raw m) (timed_out m), TimeoutQuery (timed_out m)] @
     (if timed_out m then [] else [SerialPrintln (int_of_uint16 w (raw m))])"

fun is_setTimeout :: "event \<Rightarrow> bool" where
  "is_setTimeout (SensorSetTimeout t) = True"
| "is_setTimeout e = False"

text \<open>
  How a reader of the channel takes a line as a decimal integer: an optional minus
  sign, then one or more of the digits 0 to 9, most significant first.
\<close>

definition is_digit :: "char \<Rightarrow> bool" where
  "is_digit c = (48 \<le> (of_char c :: nat) \<and> (of_char c :: nat) \<le> 57)"

fun read_digits :: "nat \<Rightarrow> string \<Rightarrow> nat option" where
  "read_digits acc [] = Some acc"
| "read_digits acc (c # cs) =
     (if is_digit c then read_digits (10 * acc + (of_char c - 48)) cs else None)"

definition read_decimal :: "string \<Rightarrow> int option" where
  "read_decimal s =
     (case s of
        [] \<Rightarrow> None
      | c # cs \<Rightarrow>
          if c = CHR ''-'' then (if cs = [] then None else map_option (\<lambda>n. - int n) (read_digits 0 cs))
          else map_option int (read_digits 0 s))"

subsection \<open>One iteration\<close>

lemma loop_timed_out:
  "timed_out m \<Longrightarrow>
   loop w m b =
     b\<lparr>sensor := (sensor b)\<lparr>did_timeout := False\<rparr>,
       calls := calls b @ [RangeRequest, RangeReturn (raw m) True, TimeoutQuery True]\<rparr>"
  by (simp add: loop_def readRangeSingleMillimeters_def timeoutOccurred_def)

lemma loop_answered:
  "\<not> timed_out m \<Longrightarrow> \<not> did_timeout (sensor b) \<Longrightarrow>
   loop w m b =
     b\<lparr>serial_out := serial_out b @ report w m,
       sensor := (sensor b)\<lparr>did_timeout := False\<rparr>,
       calls := calls b @ [RangeRequest, RangeReturn (raw m) False, TimeoutQuery False,
                           SerialPrintln (int_of_uint16 w (raw m))]\<rparr>"
  by (simp add: loop_def readRangeSingleMillimeters_def timeoutOccurred_def
      Serial_println_def report_def)

lemma loop_clears_mark: "\<not> did_timeout (sensor (loop w m b))"
  by (simp add: loop_def readRangeSingleMillimeters_def timeoutOccurred_def
      Serial_println_def)

lemma setup_sketch_eq:
  "setup_sketch boot =
     \<lparr>serial_baud = Some 2000000, serial_out = [], wire_started = True,
      sensor = \<lparr>initialised = True, configured = True, io_timeout = 500, did_timeout = False\<rparr>,
      calls = [SerialBegin 2000000, WireBegin, SensorInit, SensorConfigureDefault,
               SensorSetTimeout 500]\<rparr>"
  by (simp add: setup_sketch_def boot_def Serial_begin_def Wire_begin_def init_def
      configureDefault_def setTimeout_def)

lemma iterate_Nil: "iterate w b [] = b"
  by (simp add: iterate_def)

lemma iterate_Cons: "iterate w b (m # ms) = iterate w (loop w m b) ms"
  by (simp add: iterate_def)

subsection \<open>Executions\<close>

lemma loop_eq:
  "\<not> did_timeout (sensor b) \<Longrightarrow>
   loop w m b =
     b\<lparr>serial_out := serial_out b @ (if timed_out m then [] else report w m),
       calls := calls b @ loop_calls w m\<rparr>"
  by (cases "timed_out m") (simp_all add: loop_timed_out loop_answered loop_calls_def)

lemma iterate_eq:
  "\<not> did_timeout (sensor b) \<Longrightarrow>
   iterate w b ms =
     b\<lparr>serial_out := serial_out b @ concat (map (report w) (filter (\<lambda>m. \<not> timed_out m) ms)),
       calls := calls b @ concat (map (loop_calls w) ms)\<rparr>"
proof (induction ms arbitrary: b)
  case Nil
  then show ?case by (simp add: iterate_Nil)
next
  case (Cons m ms)
  have "\<not> did_timeout (sensor (loop w m b))" by (rule loop_clears_mark)
  then have "iterate w (loop w m b) ms =
     (loop w m b)\<lparr>serial_out := serial_out (loop w m b) @ concat (map (report w) (filter (\<lambda>m. \<not> timed_out m) ms)),
       calls := calls (loop w m b) @ concat (map (loop_calls w) ms)\<rparr>"
    by (rule Cons.IH)
  then show ?case using Cons.prems
    by (simp add: iterate_Cons loop_eq)
qed

lemma run_eq:
  "run w ms =
     \<lparr>serial_baud = Some 2000000,
      serial_out = concat (map (report w) (filter (\<lambda>m. \<not> timed_out m) ms)),
      wire_started = True,
      sensor = \<lparr>initialised = True, configured = True, io_timeout = 500, did_timeout = False\<rparr>,
      calls = [SerialBegin 2000000, WireBegin, SensorInit, SensorConfigureDefault,
               SensorSetTimeout 500] @ concat (map (loop_calls w) ms)\<rparr>"
  by (simp add: run_def iterate_eq setup_sketch_eq)

lemma serial_out_run:
  "serial_out (run w ms) = concat (map (report w) (filter (\<lambda>m. \<not> timed_out m) ms))"
  by (simp add: run_eq)

lemma emitted_eq:
  "i < length ms \<Longrightarrow> emitted w ms i = (if timed_out (ms ! i) then [] else report w (ms ! i))"
  by (simp add: emitted_def serial_out_run take_Suc_conv_app_nth)


subsection \<open>The conversion to \<^verbatim>\<open>int\<close>\<close>

lemma uint16_bound: "uint (v :: 16 word) < 65536"
  using uint_bounded [of v] by simp

lemma signed_16: "sint (v :: 16 word) = (if uint v \<le> 32767 then uint v else uint v - 65536)"
proof -
  have s: "sint v = (uint v + 32768) mod 65536 - 32768"
    by (simp add: sint_uint signed_take_bit_eq_take_bit_shift take_bit_eq_mod)
  show ?thesis
  proof (cases "uint v \<le> 32767")
    case True
    then have "(uint v + 32768) mod 65536 = uint v + 32768"
      by (intro mod_pos_pos_trivial) simp_all
    with s True show ?thesis by simp
  next
    case False
    have e: "uint v + 32768 = (uint v - 32768) + 65536"
      by simp
    have "(uint v + 32768) mod 65536 = (uint v - 32768) mod 65536"
      by (subst e) (simp only: mod_add_self2)
    also have "\<dots> = uint v - 32768"
      using False uint16_bound [of v] by (intro mod_pos_pos_trivial) simp_all
    finally show ?thesis using s False by simp
  qed
qed

lemma signed_32: "sint (ucast (v :: 16 word) :: 32 word) = uint v"
proof -
  have "uint (ucast v :: 32 word) = uint v"
    by (simp add: uint_up_ucast is_up)
  then have s: "sint (ucast v :: 32 word) = (uint v + 2147483648) mod 4294967296 - 2147483648"
    by (simp add: sint_uint signed_take_bit_eq_take_bit_shift take_bit_eq_mod)
  have "(uint v + 2147483648) mod 4294967296 = uint v + 2147483648"
    using uint16_bound [of v] by (intro mod_pos_pos_trivial) simp_all
  with s show ?thesis by simp
qed

lemma int_of_uint16_eq:
  "int_of_uint16 w v = (if w = Int32 \<or> uint v \<le> 32767 then uint v else uint v - 65536)"
  by (cases w) (simp_all add: int_of_uint16_def signed_16 signed_32)

subsection \<open>Decimal numerals\<close>

lemma read_digits_snoc:
  "read_digits acc (cs @ [c]) =
     (case read_digits acc cs of
        None \<Rightarrow> None
      | Some v \<Rightarrow> if is_digit c then Some (10 * v + (of_char c - 48)) else None)"
  by (induction cs arbitrary: acc) simp_all

lemma digit_char: "c < 10 \<Longrightarrow> is_digit (char_of (48 + c)) \<and> of_char (char_of (48 + c)) - 48 = (c :: nat)"
  by (simp add: is_digit_def)

lemma read_digits_printNumber: "read_digits 0 (printNumber n) = Some n"
proof (induction n rule: printNumber.induct)
  case (1 n)
  have c: "n mod 10 < 10" by simp
  show ?case
  proof (cases "n div 10 = 0")
    case True
    then have "printNumber n = [char_of (48 + n mod 10)]"
      by (subst printNumber.simps) simp
    moreover have "n mod 10 = n" using True by simp
    ultimately show ?thesis using digit_char [OF c] by simp
  next
    case False
    then have p: "printNumber n = printNumber (n div 10) @ [char_of (48 + n mod 10)]"
      by (subst printNumber.simps) simp
    have "read_digits 0 (printNumber (n div 10)) = Some (n div 10)"
      using False by (intro "1.IH") simp_all
    then show ?thesis using digit_char [OF c] by (simp add: p read_digits_snoc)
  qed
qed

lemma printNumber_digits: "list_all is_digit (printNumber n) \<and> printNumber n \<noteq> []"
proof (induction n rule: printNumber.induct)
  case (1 n)
  have c: "n mod 10 < 10" by simp
  show ?case
  proof (cases "n div 10 = 0")
    case True
    then have "printNumber n = [char_of (48 + n mod 10)]"
      by (subst printNumber.simps) simp
    then show ?thesis using digit_char [OF c] by simp
  next
    case False
    then have p: "printNumber n = printNumber (n div 10) @ [char_of (48 + n mod 10)]"
      by (subst printNumber.simps) simp
    have "list_all is_digit (printNumber (n div 10)) \<and> printNumber (n div 10) \<noteq> []"
      using False by (intro "1.IH") simp_all
    then show ?thesis using digit_char [OF c] by (simp add: p)
  qed
qed

lemma minus_not_digit: "\<not> is_digit CHR ''-''"
  by (simp add: is_digit_def)

lemma read_decimal_print_int: "read_decimal (print_int n) = Some n"
proof (cases "n < 0")
  case True
  have "printNumber (nat (- n)) \<noteq> []" using printNumber_digits by blast
  then show ?thesis using True
    by (simp add: read_decimal_def print_int_def read_digits_printNumber)
next
  case False
  obtain c cs where p: "printNumber (nat n) = c # cs"
    using printNumber_digits [of "nat n"] by (cases "printNumber (nat n)") auto
  have "is_digit c" using printNumber_digits [of "nat n"] by (simp add: p)
  then have "c \<noteq> CHR ''-''" using minus_not_digit by auto
  moreover have "read_digits 0 (c # cs) = Some (nat n)"
    using read_digits_printNumber [of "nat n"] by (simp only: p)
  ultimately show ?thesis using False
    by (simp add: read_decimal_def print_int_def p del: read_digits.simps)
qed

lemma print_int_inj: "print_int a = print_int b \<Longrightarrow> a = b"
proof -
  assume e: "print_int a = print_int b"
  have "Some a = read_decimal (print_int a)" by (simp only: read_decimal_print_int)
  also have "\<dots> = read_decimal (print_int b)" by (simp only: e)
  also have "\<dots> = Some b" by (simp only: read_decimal_print_int)
  finally show "a = b" by simp
qed

lemma print_int_chars: "c \<in> set (print_int n) \<Longrightarrow> is_digit c \<or> c = CHR ''-''"
  using printNumber_digits [of "nat n"] printNumber_digits [of "nat (- n)"]
  by (auto simp: print_int_def list_all_iff split: if_splits)

lemma print_int_no_break: "set (print_int n) \<inter> set line_break = {}"
proof -
  have "\<not> is_digit c \<and> c \<noteq> CHR ''-''" if "c \<in> set line_break" for c
    using that by (auto simp: line_break_def is_digit_def)
  then show ?thesis using print_int_chars by blast
qed

subsection \<open>Evaluating reports\<close>

lemma digit_chars:
  "char_of (48 :: nat) = CHR ''0''" "char_of (49 :: nat) = CHR ''1''"
  "char_of (50 :: nat) = CHR ''2''" "char_of (51 :: nat) = CHR ''3''"
  "char_of (52 :: nat) = CHR ''4''" "char_of (53 :: nat) = CHR ''5''"
  "char_of (54 :: nat) = CHR ''6''" "char_of (55 :: nat) = CHR ''7''"
  "char_of (56 :: nat) = CHR ''8''" "char_of (57 :: nat) = CHR ''9''"
  by code_simp+

lemmas print_int_eval = print_int_def printNumber.simps Let_def digit_chars

lemma print_120: "print_int 120 = ''120''"
  by (simp add: print_int_eval)

lemma print_95: "print_int 95 = ''95''"
  by (simp add: print_int_eval)



lemma print_minus_25536: "print_int (- 25536) = ''-25536''"
  by (simp add: print_int_eval)

lemma emitted_answered:
  "i < length ms \<Longrightarrow> \<not> timed_out (ms ! i) \<Longrightarrow>
   emitted w ms i = print_int (int_of_uint16 w (raw (ms ! i))) @ line_break"
  by (simp add: emitted_eq report_def)

subsection \<open>The call record\<close>

lemma calls_run:
  "calls (run w ms) =
     [SerialBegin 2000000, WireBegin, SensorInit, SensorConfigureDefault, SensorSetTimeout 500] @
     concat (map (loop_calls w) ms)"
  by (simp add: run_eq)

lemma no_request_before_loop:
  "takeWhile (\<lambda>e. e \<noteq> RangeRequest) (concat (map (loop_calls w) ms)) = []"
  by (cases ms) (simp_all add: loop_calls_def)

lemma requests_loop_calls: "filter (\<lambda>e. e = RangeRequest) (loop_calls w m) = [RangeRequest]"
  by (simp add: loop_calls_def)

lemma requests_concat:
  "length (filter (\<lambda>e. e = RangeRequest) (concat (map (loop_calls w) ms))) = length ms"
  by (induction ms) (simp_all add: requests_loop_calls)

lemma setTimeout_loop_calls: "filter is_setTimeout (loop_calls w m) = []"
  by (simp add: loop_calls_def)

lemma setTimeout_concat: "filter is_setTimeout (concat (map (loop_calls w) ms)) = []"
  by (induction ms) (simp_all add: setTimeout_loop_calls)

section \<open>Properties of the sampler\<close>

subsection \<open>Timeout suppression\<close>

text \<open>
  C1. In every execution, an iteration whose measurement timed out adds nothing to the
  serial output: this holds for the \<open>i\<close>-th iteration of every sequence of outcomes and
  for one iteration from any state of the board. For the outcomes 120 mm, timeout, 95 mm
  the output is the line \<^verbatim>\<open>120\<close> followed by the line \<^verbatim>\<open>95\<close>, whatever value the
  timed-out request returned.
\<close>

theorem timeout_suppression:
  "(\<forall>ms i. i < length ms \<and> timed_out (ms ! i) \<longrightarrow> emitted w ms i = []) \<and>
   (\<forall>r b. serial_out (loop w \<lparr>raw = r, timed_out = True\<rparr> b) = serial_out b) \<and>
   (\<forall>r. serial_out (run w [\<lparr>raw = 120, timed_out = False\<rparr>, \<lparr>raw = r, timed_out = True\<rparr>,
                            \<lparr>raw = 95, timed_out = False\<rparr>])
        = ''120'' @ line_break @ ''95'' @ line_break)"
proof (intro conjI allI impI)
  fix ms :: "outcome list" and i
  assume "i < length ms \<and> timed_out (ms ! i)"
  then show "emitted w ms i = []" by (simp add: emitted_eq)
next
  fix r b
  show "serial_out (loop w \<lparr>raw = r, timed_out = True\<rparr> b) = serial_out b"
    by (simp add: loop_timed_out)
next
  fix r
  show "serial_out (run w [\<lparr>raw = 120, timed_out = False\<rparr>, \<lparr>raw = r, timed_out = True\<rparr>,
                            \<lparr>raw = 95, timed_out = False\<rparr>])
        = ''120'' @ line_break @ ''95'' @ line_break"
    by (simp add: serial_out_run report_def int_of_uint16_eq print_120 print_95)
qed

theorem timeout_suppression_witness:
  "1 < length [\<lparr>raw = 120, timed_out = False\<rparr>, \<lparr>raw = 255, timed_out = True\<rparr>,
               \<lparr>raw = 95, timed_out = False\<rparr>] \<and>
   timed_out ([\<lparr>raw = 120, timed_out = False\<rparr>, \<lparr>raw = 255, timed_out = True\<rparr>,
               \<lparr>raw = 95, timed_out = False\<rparr>] ! 1) \<and>
   emitted Int16 [\<lparr>raw = 120, timed_out = False\<rparr>, \<lparr>raw = 255, timed_out = True\<rparr>,
                  \<lparr>raw = 95, timed_out = False\<rparr>] 1 = []"
proof -
  let ?ms = "[\<lparr>raw = 120, timed_out = False\<rparr>, \<lparr>raw = 255, timed_out = True\<rparr>,
              \<lparr>raw = 95, timed_out = False\<rparr>]"
  have h: "1 < length ?ms \<and> timed_out (?ms ! 1)" by simp
  have "\<forall>ms i. i < length ms \<and> timed_out (ms ! i) \<longrightarrow> emitted Int16 ms i = []"
    using timeout_suppression [of Int16] by (rule conjunct1)
  then have "emitted Int16 ?ms 1 = []" using h by blast
  with h show ?thesis by blast
qed

subsection \<open>Pass-through of the reading\<close>



subsection \<open>Initialisation before acquisition\<close>

text \<open>
  C3. In every execution the calls made before the first range request are exactly the
  five calls of \<open>setup\<close>, with \<^verbatim>\<open>init\<close> third and \<^verbatim>\<open>configureDefault\<close> fourth; when
  there is a first iteration, its range request is the sixth call, and the handle is
  initialised and configured from then on.
\<close>

theorem initialisation_before_acquisition:
  "takeWhile (\<lambda>e. e \<noteq> RangeRequest) (calls (run w ms)) =
     [SerialBegin 2000000, WireBegin, SensorInit, SensorConfigureDefault, SensorSetTimeout 500] \<and>
   calls (setup_sketch boot) =
     [SerialBegin 2000000, WireBegin, SensorInit, SensorConfigureDefault, SensorSetTimeout 500] \<and>
   take 6 (calls (run w (m # ms))) =
     [SerialBegin 2000000, WireBegin, SensorInit, SensorConfigureDefault, SensorSetTimeout 500,
      RangeRequest] \<and>
   initialised (sensor (run w ms)) \<and> configured (sensor (run w ms))"
proof (intro conjI)
  show "takeWhile (\<lambda>e. e \<noteq> RangeRequest) (calls (run w ms)) =
     [SerialBegin 2000000, WireBegin, SensorInit, SensorConfigureDefault, SensorSetTimeout 500]"
    by (simp add: calls_run no_request_before_loop)
  show "calls (setup_sketch boot) =
     [SerialBegin 2000000, WireBegin, SensorInit, SensorConfigureDefault, SensorSetTimeout 500]"
    by (simp add: setup_sketch_eq)
  show "take 6 (calls (run w (m # ms))) =
     [SerialBegin 2000000, WireBegin, SensorInit, SensorConfigureDefault, SensorSetTimeout 500,
      RangeRequest]"
    by (simp add: calls_run loop_calls_def)
  show "initialised (sensor (run w ms))" by (simp add: run_eq)
  show "configured (sensor (run w ms))" by (simp add: run_eq)
qed

subsection \<open>Unbounded repetition\<close>

text \<open>
  C4. For every sequence of outcomes, timed out or not, the execution issues as many
  range requests as there are outcomes, and after any such sequence the next iteration
  begins by issuing a range request: no outcome stops the loop.
\<close>

theorem one_request_per_outcome:
  "length (filter (\<lambda>e. e = RangeRequest) (calls (run w ms))) = length ms \<and>
   take 1 (drop (length (calls (run w ms))) (calls (run w (ms @ [m])))) = [RangeRequest]"
proof
  show "length (filter (\<lambda>e. e = RangeRequest) (calls (run w ms))) = length ms"
    by (simp add: calls_run requests_concat)
  have "calls (run w (ms @ [m])) = calls (run w ms) @ loop_calls w m"
    by (simp add: calls_run)
  then show "take 1 (drop (length (calls (run w ms))) (calls (run w (ms @ [m])))) = [RangeRequest]"
    by (simp add: loop_calls_def)
qed

subsection \<open>Timeout configuration\<close>

text \<open>
  C5. In every execution \<^verbatim>\<open>setTimeout\<close> is called exactly once, with the value 500, and
  that call is one of the calls of \<open>setup\<close>; the configured timeout is 500 after every
  number of iterations, and no iteration, from any state of the board, calls
  \<^verbatim>\<open>setTimeout\<close> or changes the configured timeout.
\<close>

theorem timeout_configured_once:
  "filter is_setTimeout (calls (run w ms)) = [SensorSetTimeout 500] \<and>
   filter is_setTimeout (calls (setup_sketch boot)) = [SensorSetTimeout 500] \<and>
   io_timeout (sensor (run w ms)) = 500 \<and>
   (\<forall>m b. filter is_setTimeout (calls (loop w m b)) = filter is_setTimeout (calls b) \<and>
          io_timeout (sensor (loop w m b)) = io_timeout (sensor b))"
proof (intro conjI allI)
  show "filter is_setTimeout (calls (run w ms)) = [SensorSetTimeout 500]"
    by (simp add: calls_run setTimeout_concat)
  show "filter is_setTimeout (calls (setup_sketch boot)) = [SensorSetTimeout 500]"
    by (simp add: setup_sketch_eq)
  show "io_timeout (sensor (run w ms)) = 500"
    by (simp add: run_eq)
  fix m b
  show "filter is_setTimeout (calls (loop w m b)) = filter is_setTimeout (calls b)"
    by (simp add: loop_def readRangeSingleMillimeters_def timeoutOccurred_def
        Serial_println_def)
  show "io_timeout (sensor (loop w m b)) = io_timeout (sensor b)"
    by (simp add: loop_def readRangeSingleMillimeters_def timeoutOccurred_def
        Serial_println_def)
qed

subsection \<open>The reporting channel\<close>

text \<open>
  C6. The first call of every execution opens the serial port at 2000000 baud, and the
  port keeps that rate. The whole serial output is the concatenation, in order, of one
  line for each measurement that did not time out: the decimal numeral of the value of
  \<^verbatim>\<open>distance\<close>, followed by the line break. Each such numeral reads back as that
  integer and contains no character of the line break.
\<close>

theorem reporting_channel_format:
  "serial_baud (run w ms) = Some 2000000 \<and>
   take 1 (calls (run w ms)) = [SerialBegin 2000000] \<and>
   serial_out (run w ms) =
     concat (map (\<lambda>m. print_int (int_of_uint16 w (raw m)) @ line_break)
               (filter (\<lambda>m. \<not> timed_out m) ms)) \<and>
   (\<forall>n. read_decimal (print_int n) = Some n \<and> set (print_int n) \<inter> set line_break = {})"
proof (intro conjI allI)
  show "serial_baud (run w ms) = Some 2000000" by (simp add: run_eq)
  show "take 1 (calls (run w ms)) = [SerialBegin 2000000]" by (simp add: calls_run)
  have "report w = (\<lambda>m. print_int (int_of_uint16 w (raw m)) @ line_break)"
    by (rule ext) (simp add: report_def)
  then show "serial_out (run w ms) =
     concat (map (\<lambda>m. print_int (int_of_uint16 w (raw m)) @ line_break)
               (filter (\<lambda>m. \<not> timed_out m) ms))"
    by (simp add: serial_out_run)
  fix n
  show "read_decimal (print_int n) = Some n" by (rule read_decimal_print_int)
  show "set (print_int n) \<inter> set line_break = {}" by (rule print_int_no_break)
qed

subsection \<open>A timeout leaves no trace\<close>

text \<open>
  C8. An iteration whose measurement timed out leaves the board as it was at the start
  of the iteration but for the call record, which gains the request, its return and the
  inspection of the mark. An execution with a timed-out measurement in it ends, the call
  record apart, in the state of the execution without that measurement, with the same
  serial output; and the loop goes on: requests are issued for all the outcomes before
  and after the timeout.
\<close>

theorem timeout_leaves_no_trace:
  "loop w \<lparr>raw = r, timed_out = True\<rparr> (run w ms) =
     (run w ms)\<lparr>calls := calls (run w ms) @ [RangeRequest, RangeReturn r True, TimeoutQuery True]\<rparr> \<and>
   (run w (ms @ \<lparr>raw = r, timed_out = True\<rparr> # ns))\<lparr>calls := []\<rparr> = (run w (ms @ ns))\<lparr>calls := []\<rparr> \<and>
   serial_out (run w (ms @ \<lparr>raw = r, timed_out = True\<rparr> # ns)) = serial_out (run w (ms @ ns)) \<and>
   length (filter (\<lambda>e. e = RangeRequest) (calls (run w (ms @ \<lparr>raw = r, timed_out = True\<rparr> # ns)))) =
     length ms + 1 + length ns"
proof (intro conjI)
  show "loop w \<lparr>raw = r, timed_out = True\<rparr> (run w ms) =
     (run w ms)\<lparr>calls := calls (run w ms) @ [RangeRequest, RangeReturn r True, TimeoutQuery True]\<rparr>"
    by (simp add: loop_timed_out run_eq)
  show "(run w (ms @ \<lparr>raw = r, timed_out = True\<rparr> # ns))\<lparr>calls := []\<rparr> = (run w (ms @ ns))\<lparr>calls := []\<rparr>"
    by (simp add: run_eq)
  show "serial_out (run w (ms @ \<lparr>raw = r, timed_out = True\<rparr> # ns)) = serial_out (run w (ms @ ns))"
    by (simp add: serial_out_run)
  show "length (filter (\<lambda>e. e = RangeRequest) (calls (run w (ms @ \<lparr>raw = r, timed_out = True\<rparr> # ns)))) =
     length ms + 1 + length ns"
    by (simp only: calls_run filter_append length_append requests_concat) simp
qed

subsection \<open>The reading as a 16-bit \<^verbatim>\<open>int\<close>\<close>

text \<open>
  C9. Where \<^verbatim>\<open>int\<close> has 16 bits the reading is the two's complement value of the raw
  16-bit pattern: a measurement that did not time out and whose raw reading is above
  32767 is reported as the raw reading minus 65536, a negative number, and not as the
  raw reading. The value printed equals the raw reading exactly when \<^verbatim>\<open>int\<close> has 32
  bits or the raw reading is at most 32767.
\<close>

theorem int16_reinterpretation:
  "(\<forall>ms i. i < length ms \<and> \<not> timed_out (ms ! i) \<and> 32767 < uint (raw (ms ! i)) \<longrightarrow>
      emitted Int16 ms i = print_int (uint (raw (ms ! i)) - 65536) @ line_break \<and>
      uint (raw (ms ! i)) - 65536 < 0 \<and>
      emitted Int16 ms i \<noteq> print_int (uint (raw (ms ! i))) @ line_break) \<and>
   (\<forall>v. int_of_uint16 Int16 v = sint v) \<and>
   (\<forall>v. (int_of_uint16 w v = uint v) = (w = Int32 \<or> uint v \<le> 32767))"
proof (intro conjI allI impI)
  fix ms :: "outcome list" and i
  assume h: "i < length ms \<and> \<not> timed_out (ms ! i) \<and> 32767 < uint (raw (ms ! i))"
  then have "int_of_uint16 Int16 (raw (ms ! i)) = uint (raw (ms ! i)) - 65536"
    by (simp add: int_of_uint16_eq)
  with h show e: "emitted Int16 ms i = print_int (uint (raw (ms ! i)) - 65536) @ line_break"
    by (simp add: emitted_answered)
  show "uint (raw (ms ! i)) - 65536 < 0"
    using uint16_bound [of "raw (ms ! i)"] by simp
  show "emitted Int16 ms i \<noteq> print_int (uint (raw (ms ! i))) @ line_break"
  proof
    assume "emitted Int16 ms i = print_int (uint (raw (ms ! i))) @ line_break"
    with e have "print_int (uint (raw (ms ! i)) - 65536) = print_int (uint (raw (ms ! i)))"
      by simp
    then have "uint (raw (ms ! i)) - 65536 = uint (raw (ms ! i))"
      by (rule print_int_inj)
    then show False by simp
  qed
next
  fix v
  show "int_of_uint16 Int16 v = sint v" by (simp add: int_of_uint16_def)
next
  fix v
  show "(int_of_uint16 w v = uint v) = (w = Int32 \<or> uint v \<le> 32767)"
    by (simp add: int_of_uint16_eq)
qed

theorem int16_reinterpretation_witness:
  "0 < length [\<lparr>raw = 40000, timed_out = False\<rparr>] \<and>
   \<not> timed_out ([\<lparr>raw = 40000, timed_out = False\<rparr>] ! 0) \<and>
   32767 < uint (raw ([\<lparr>raw = 40000, timed_out = False\<rparr>] ! 0)) \<and>
   emitted Int16 [\<lparr>raw = 40000, timed_out = False\<rparr>] 0 = ''-25536'' @ line_break"
proof -
  let ?ms = "[\<lparr>raw = 40000, timed_out = False\<rparr>]"
  have h: "0 < length ?ms \<and> \<not> timed_out (?ms ! 0) \<and> 32767 < uint (raw (?ms ! 0))"
    by simp
  have "\<forall>ms i. i < length ms \<and> \<not> timed_out (ms ! i) \<and> 32767 < uint (raw (ms ! i)) \<longrightarrow>
      emitted Int16 ms i = print_int (uint (raw (ms ! i)) - 65536) @ line_break \<and>
      uint (raw (ms ! i)) - 65536 < 0 \<and>
      emitted Int16 ms i \<noteq> print_int (uint (raw (ms ! i))) @ line_break"
    using int16_reinterpretation [of Int16] by (rule conjunct1)
  then have "emitted Int16 ?ms 0 = print_int (uint (raw (?ms ! 0)) - 65536) @ line_break"
    using h by blast
  then have "emitted Int16 ?ms 0 = ''-25536'' @ line_break"
    by (simp add: print_minus_25536)
  with h show ?thesis by blast
qed

subsection \<open>Independence of earlier outcomes\<close>

text \<open>
  C10. If the \<open>i\<close>-th measurements of two executions return the same value and the same
  timeout flag, the \<open>i\<close>-th iterations of the two executions add the same text to the
  serial output, whatever the other outcomes of the two executions were.
\<close>

theorem iteration_output_depends_on_outcome_only:
  assumes "i < length ms" and "i < length ns"
    and "raw (ms ! i) = raw (ns ! i)" and "timed_out (ms ! i) = timed_out (ns ! i)"
  shows "emitted w ms i = emitted w ns i"
  using assms by (simp add: emitted_eq report_def)

theorem iteration_output_depends_on_outcome_only_witness:
  "2 < length [\<lparr>raw = 120, timed_out = False\<rparr>, \<lparr>raw = 255, timed_out = True\<rparr>,
               \<lparr>raw = 95, timed_out = False\<rparr>] \<and>
   2 < length [\<lparr>raw = 255, timed_out = True\<rparr>, \<lparr>raw = 40000, timed_out = False\<rparr>,
               \<lparr>raw = 95, timed_out = False\<rparr>] \<and>
   emitted Int16 [\<lparr>raw = 120, timed_out = False\<rparr>, \<lparr>raw = 255, timed_out = True\<rparr>,
                  \<lparr>raw = 95, timed_out = False\<rparr>] 2 =
   emitted Int16 [\<lparr>raw = 255, timed_out = True\<rparr>, \<lparr>raw = 40000, timed_out = False\<rparr>,
                  \<lparr>raw = 95, timed_out = False\<rparr>] 2"
proof -
  let ?ms = "[\<lparr>raw = 120, timed_out = False\<rparr>, \<lparr>raw = 255, timed_out = True\<rparr>,
              \<lparr>raw = 95, timed_out = False\<rparr>]"
  let ?ns = "[\<lparr>raw = 255, timed_out = True\<rparr>, \<lparr>raw = 40000, timed_out = False\<rparr>,
              \<lparr>raw = 95, timed_out = False\<rparr>]"
  have a: "2 < length ?ms" and b: "2 < length ?ns" by simp_all
  have c: "raw (?ms ! 2) = raw (?ns ! 2)" and d: "timed_out (?ms ! 2) = timed_out (?ns ! 2)"
    by simp_all
  have "emitted Int16 ?ms 2 = emitted Int16 ?ns 2"
    by (rule iteration_output_depends_on_outcome_only [OF a b c d])
  with a b show ?thesis by blast
qed

end
